theory Spec2Isabelle
  imports Main "HOL-Library.Sublist"
begin

section \<open>Data model of \<open>getLatestTag.ts\<close>\<close>

text \<open>
  A thrown JavaScript value. The only value the module itself throws is
  \<open>new Error(message)\<close>; what the transport throws is opaque and is given the same shape.
\<close>

datatype js_error = Error string

text \<open>
  What \<open>urlExists\<close> reads of a \<open>node-fetch\<close> response: the status code and the
  header entries in the order \<open>res.headers.entries()\<close> yields them.
\<close>

record response =
  status :: int
  entries :: "(string \<times> string) list"

text \<open>\<open>await fetch(url, ...)\<close> either throws or yields a response.\<close>

datatype fetch_result = Threw js_error | Got response

text \<open>
  The transport: the answer the \<open>k\<close>-th \<open>HEAD\<close> request of a run receives when it is
  sent to \<open>url\<close>. Indexing by the request's ordinal lets the remote host answer the same
  URL differently at different moments. A thrown exception of \<open>getProxyAgent\<close> is a
  \<open>Threw\<close> of the request it belongs to (both calls stand inside the same \<open>try\<close>).
\<close>

type_synonym transport = "nat \<Rightarrow> string \<Rightarrow> fetch_result"

text \<open>What \<open>console.error\<close> is called with.\<close>

datatype console_entry = ErrResponse response | ErrException js_error

text \<open>
  The observable effects of a run: the URLs of the \<open>HEAD\<close> requests in the order they
  were sent, and the lines written with \<open>console.error\<close>.
\<close>

record world =
  requests :: "string list"
  console :: "console_entry list"

text \<open>One element of the array \<open>exist\<close>.\<close>

record outcome =
  downloadUrl :: string
  exists :: bool

text \<open>
  \<open>getDownloadUrl\<close> is imported from \<open>./util\<close>, which is not part of the sources at
  hand; the functions below take it as a parameter. Its second argument is the commit
  (\<open>None\<close> is JavaScript's \<open>undefined\<close>), its last one the extension (\<open>None\<close> when
  the call passes four arguments only).
\<close>

type_synonym url_builder =
  "string \<Rightarrow> string option \<Rightarrow> string \<Rightarrow> string \<Rightarrow> string option \<Rightarrow> string"

section \<open>\<open>parseInt\<close> and \<open>fromEntries\<close>\<close>

text \<open>
  \<open>parseInt(string)\<close> of ECMAScript with no radix argument: the argument is converted
  to a string (\<open>undefined\<close> becomes the text \<open>undefined\<close>), leading white space is
  dropped, a sign is read, a \<open>0x\<close>/\<open>0X\<close> prefix selects radix 16, and the longest
  prefix of digits of the radix is the number. \<open>None\<close> is \<open>NaN\<close>. The result is kept
  as a mathematical integer: rounding it to a double changes neither whether it is
  \<open>NaN\<close> nor whether it is greater than zero, which is all the caller asks.
  Characters are bytes here, so the white space is that of Latin-1.
\<close>

definition isWhiteSpace :: "char \<Rightarrow> bool" where
  "isWhiteSpace c = ((of_char c :: nat) \<in> set [9, 10, 11, 12, 13, 32, 160])"

definition digitValue :: "char \<Rightarrow> nat option" where
  "digitValue c =
     (let n = (of_char c :: nat) in
      if 48 \<le> n \<and> n \<le> 57 then Some (n - 48)
      else if 97 \<le> n \<and> n \<le> 122 then Some (n - 87)
      else if 65 \<le> n \<and> n \<le> 90 then Some (n - 55)
      else None)"

definition radixDigit :: "nat \<Rightarrow> char \<Rightarrow> nat option" where
  "radixDigit R c =
     (case digitValue c of
        None \<Rightarrow> None
      | Some d \<Rightarrow> if d < R then Some d else None)"

definition parseInt :: "string option \<Rightarrow> int option" where
  "parseInt v =
     (let inputString = (case v of None \<Rightarrow> ''undefined'' | Some s \<Rightarrow> s);
          S = dropWhile isWhiteSpace inputString;
          sign = (if take 1 S = ''-'' then - 1 else 1 :: int);
          S1 = (if take 1 S = ''+'' \<or> take 1 S = ''-'' then drop 1 S else S);
          hex = (take 2 S1 = ''0x'' \<or> take 2 S1 = ''0X'');
          R = (if hex then 16 else 10);
          S2 = (if hex then drop 2 S1 else S1);
          Z = takeWhile (\<lambda>c. radixDigit R c \<noteq> None) S2
      in if Z = [] then None
         else Some (sign * int (foldl (\<lambda>a d. a * R + d) 0 (List.map_filter (radixDigit R) Z))))"

text \<open>\<open>fromEntries\<close>: a later entry with the same key overwrites an earlier one.\<close>

definition fromEntries :: "(string \<times> 'v) list \<Rightarrow> (string \<rightharpoonup> 'v)" where
  "fromEntries es = foldl (\<lambda>result (key, val). result(key \<mapsto> val)) Map.empty es"

section \<open>\<open>urlExists\<close>\<close>

text \<open>
  Sending the request: the transport answers the request according to its ordinal, and
  the URL is appended to the request log.
\<close>

definition fetch :: "transport \<Rightarrow> string \<Rightarrow> world \<Rightarrow> fetch_result \<times> world" where
  "fetch net url w = (net (length (requests w)) url, w\<lparr>requests := requests w @ [url]\<rparr>)"

text \<open>
  The \<open>try\<close> block once the request has settled. \<open>Inl e\<close>: the exception \<open>e\<close> leaves
  the block; \<open>Inr (Some b)\<close>: the block returns \<open>b\<close>; \<open>Inr None\<close>: the block falls
  through to the statement after the \<open>try\<close>.
\<close>

definition urlExists_try :: "fetch_result \<Rightarrow> world \<Rightarrow> (js_error + bool option) \<times> world" where
  "urlExists_try r w =
     (case r of
        Threw e \<Rightarrow> (Inl e, w)
      | Got res \<Rightarrow>
          (let headers = fromEntries (entries res);
               w1 = (if status res > 200
                     then w\<lparr>console := console w @ [ErrResponse res]\<rparr> else w)
           in if (case parseInt (headers ''content-length'') of
                    None \<Rightarrow> False | Some n \<Rightarrow> n > 0)
              then (Inr (Some (status res < 300)), w1)
              else (Inr None, w1)))"

text \<open>
  The whole body after the request has settled: the \<open>catch\<close> clause logs the exception
  and falls through, and the last statement is \<open>return false\<close>.
\<close>

definition urlExists_settle :: "fetch_result \<Rightarrow> world \<Rightarrow> (js_error + bool) \<times> world" where
  "urlExists_settle r w =
     (case urlExists_try r w of
        (Inl e, w1) \<Rightarrow> (Inr False, w1\<lparr>console := console w1 @ [ErrException e]\<rparr>)
      | (Inr (Some b), w1) \<Rightarrow> (Inr b, w1)
      | (Inr None, w1) \<Rightarrow> (Inr False, w1))"

definition urlExists :: "transport \<Rightarrow> string \<Rightarrow> world \<Rightarrow> (js_error + bool) \<times> world" where
  "urlExists net url w = (case fetch net url w of (r, w1) \<Rightarrow> urlExists_settle r w1)"

section \<open>\<open>getFirstExistingCommit\<close>\<close>

text \<open>
  The loop over \<open>commits\<close>. An exception of \<open>await urlExists(...)\<close> would leave the
  function; a probe that yields \<open>true\<close> returns the commit; when the list is used up the
  function body ends with no \<open>return\<close>, so the promise resolves to \<open>undefined\<close>
  (\<open>None\<close>).
\<close>

fun getFirstExistingCommit ::
  "url_builder \<Rightarrow> transport \<Rightarrow> string list \<Rightarrow> world \<Rightarrow> (js_error + string option) \<times> world"
where
  "getFirstExistingCommit gdu net [] w = (Inr None, w)"
| "getFirstExistingCommit gdu net (commit # commits) w =
     (case urlExists net (gdu ''master'' (Some commit) ''darwin'' ''query-engine'' None) w of
        (Inl e, w1) \<Rightarrow> (Inl e, w1)
      | (Inr ex, w1) \<Rightarrow>
          if ex then (Inr (Some commit), w1)
          else getFirstExistingCommit gdu net commits w1)"

section \<open>The verification phase of \<open>getLatestTag\<close>\<close>

definition excludedPlatforms :: "string list" where
  "excludedPlatforms = [''freebsd'', ''arm'', ''linux-nixos'', ''openbsd'', ''netbsd'']"

text \<open>
  \<open>platforms\<close> is imported from \<open>@prisma/get-platform\<close>, which is not part of the
  sources at hand; it is a parameter.
\<close>

definition relevantPlatforms :: "string list \<Rightarrow> string list" where
  "relevantPlatforms platforms = filter (\<lambda>p. p \<notin> set excludedPlatforms) platforms"

definition engines :: "string list" where
  "engines = [''query-engine'', ''introspection-engine'', ''migration-engine'', ''prisma-fmt'']"

definition extensions :: "string list" where
  "extensions = [''.gz'', ''.gz.sha256'', ''.gz.sig'', ''.sig'', ''.sha256'']"

text \<open>
  The three nested loops: the value of \<open>downloadUrl\<close> of every iteration, in the order
  of the iterations (which is the order of the \<open>queue.add\<close> calls and of \<open>promises\<close>).
\<close>

definition downloadUrls :: "url_builder \<Rightarrow> string list \<Rightarrow> string option \<Rightarrow> string list" where
  "downloadUrls gdu platforms commit =
     concat (map (\<lambda>platform.
       concat (map (\<lambda>engine.
         map (\<lambda>extension. gdu ''master'' commit platform engine (Some extension))
           extensions)
         engines))
       (relevantPlatforms platforms))"

text \<open>
  The queue starts the tasks in the order in which they were added, so the requests
  are sent in the order of \<open>promises\<close>; \<open>issue_all\<close> sends them and keeps each URL with
  its pending answer. How many of them are under way at a time is decided inside
  \<open>p-queue\<close> and is not part of this model: every task handed to the queue is
  recorded as sent, also in a run in which a request never settles and the queue
  would hold later tasks back.
\<close>

fun issue_all :: "transport \<Rightarrow> string list \<Rightarrow> world \<Rightarrow> (string \<times> fetch_result) list \<times> world" where
  "issue_all net [] w = ([], w)"
| "issue_all net (url # urls) w =
     (case fetch net url w of
        (r, w1) \<Rightarrow> (case issue_all net urls w1 of (rs, w2) \<Rightarrow> ((url, r) # rs, w2)))"

text \<open>
  The tasks settle in an order the program does not control: \<open>sched\<close> lists the
  positions (in \<open>promises\<close>) of the tasks in the order in which their requests settle. A
  position outside the task list, or one met a second time, stands for nothing and is
  passed over; a position that \<open>sched\<close> never names is a request that never settles.
  Each settling task runs the rest of \<open>urlExists\<close> and then yields its
  \<open>{downloadUrl, exists}\<close>; the result is the list of settlements in time order, each
  with the position of its promise.
\<close>

fun settle_all ::
  "(string \<times> fetch_result) list \<Rightarrow> nat list \<Rightarrow> nat list \<Rightarrow> world
     \<Rightarrow> (nat \<times> (js_error + outcome)) list \<times> world"
where
  "settle_all tasks done [] w = ([], w)"
| "settle_all tasks done (i # sched) w =
     (if i < length tasks \<and> i \<notin> set done then
        (case tasks ! i of
           (url, r) \<Rightarrow>
             (case urlExists_settle r w of
                (b, w1) \<Rightarrow>
                  (case settle_all tasks (i # done) sched w1 of
                     (evs, w2) \<Rightarrow>
                       ((i, map_sum id (\<lambda>ex. \<lparr>downloadUrl = url, exists = ex\<rparr>) b) # evs, w2))))
      else settle_all tasks done sched w)"

text \<open>
  \<open>Promise.all(promises)\<close>: each fulfilled promise writes its value into the slot of its
  position; the first rejection in time rejects the whole; when every slot is filled the
  result is the array of the slots in the order of \<open>promises\<close>. \<open>None\<close>: the combined
  promise never settles.
\<close>

fun promise_all ::
  "'a option list \<Rightarrow> (nat \<times> (js_error + 'a)) list \<Rightarrow> (js_error + 'a list) option"
where
  "promise_all slots [] = (case those slots of None \<Rightarrow> None | Some vs \<Rightarrow> Some (Inr vs))"
| "promise_all slots ((i, Inl e) # evs) = Some (Inl e)"
| "promise_all slots ((i, Inr v) # evs) = promise_all (slots[i := Some v]) evs"

text \<open>\<open>Array.prototype.join\<close> on an array of strings.\<close>

fun join :: "string \<Rightarrow> string list \<Rightarrow> string" where
  "join sep [] = []"
| "join sep [x] = x"
| "join sep (x # y # ys) = x @ sep @ join sep (y # ys)"

section \<open>\<open>getLatestTag\<close>\<close>

text \<open>
  Lines 8 to 12 fetch and decode the commit list of the hosting API; \<open>listing\<close> is
  their outcome: \<open>Inl e\<close> when any of it throws, \<open>Inr commits\<close> otherwise. The result
  is \<open>None\<close> when the promise of \<open>getLatestTag\<close> never settles, \<open>Some (Inl e)\<close> when
  it rejects with \<open>e\<close>, and \<open>Some (Inr commit)\<close> when it resolves.
\<close>

definition getLatestTag ::
  "url_builder \<Rightarrow> transport \<Rightarrow> string list \<Rightarrow> js_error + string list \<Rightarrow> nat list \<Rightarrow> world
     \<Rightarrow> (js_error + string option) option \<times> world"
where
  "getLatestTag gdu net platforms listing sched w =
     (case listing of
        Inl e \<Rightarrow> (Some (Inl e), w)
      | Inr commits \<Rightarrow>
          (case getFirstExistingCommit gdu net commits w of
             (Inl e, w1) \<Rightarrow> (Some (Inl e), w1)
           | (Inr commit, w1) \<Rightarrow>
               (case issue_all net (downloadUrls gdu platforms commit) w1 of
                  (tasks, w2) \<Rightarrow>
                    (case settle_all tasks [] sched w2 of
                       (evs, w3) \<Rightarrow>
                         (case promise_all (replicate (length tasks) None) evs of
                            None \<Rightarrow> (None, w3)
                          | Some (Inl e) \<Rightarrow> (Some (Inl e), w3)
                          | Some (Inr exist) \<Rightarrow>
                              (let missing = filter (\<lambda>e. \<not> exists e) exist in
                               if length missing > 0 then
                                 (Some (Inl (Error
                                    (''Could not get new tag, as some assets don't exist: '' @
                                     join '', '' (map downloadUrl missing)))), w3)
                               else (Some (Inr commit), w3)))))))"

section \<open>Derived notions used in the statements\<close>

text \<open>
  Whether \<open>urlExists\<close> answers \<open>true\<close> for a settled request, and what it writes to
  the console for it. Both are read off \<open>urlExists_settle\<close> run on an empty world;
  \<open>urlExists_settle_eq\<close> below shows that the world it is run on does not matter.
\<close>

definition succeeds :: "fetch_result \<Rightarrow> bool" where
  "succeeds r = (fst (urlExists_settle r \<lparr>requests = [], console = []\<rparr>) = Inr True)"

definition noise :: "fetch_result \<Rightarrow> console_entry list" where
  "noise r = console (snd (urlExists_settle r \<lparr>requests = [], console = []\<rparr>))"

text \<open>The positions of \<open>sched\<close> that \<open>settle_all\<close> does not pass over, in order.\<close>

fun settled :: "nat \<Rightarrow> nat list \<Rightarrow> nat list \<Rightarrow> nat list" where
  "settled n done [] = []"
| "settled n done (i # sched) =
     (if i < n \<and> i \<notin> set done then i # settled n (i # done) sched
      else settled n done sched)"

text \<open>The value a task yields for its URL and the answer to its request.\<close>

definition task_outcome :: "string \<times> fetch_result \<Rightarrow> outcome" where
  "task_outcome t = \<lparr>downloadUrl = fst t, exists = succeeds (snd t)\<rparr>"

text \<open>
  The probe outcomes of the verification phase, in the order of \<open>promises\<close>, when the
  phase starts in world \<open>w\<close> and probes \<open>urls\<close>.
\<close>

definition verification_outcomes :: "transport \<Rightarrow> string list \<Rightarrow> world \<Rightarrow> outcome list" where
  "verification_outcomes net urls w = map task_outcome (fst (issue_all net urls w))"

section \<open>The URL builder\<close>

text \<open>
  Modelled from the spec: \<open>getDownloadUrl\<close> of \<open>./util\<close> is not among the sources.
  The spec gives the shape of the URL it builds,
  \<open><host>/<repo>/<branch>/<commit>/<platform>/<binary>.<extension>\<close>, as a pure function
  of the tuple; host and repository are fixed by the distribution host and are
  parameters here.
\<close>

definition getDownloadUrl ::
  "string \<Rightarrow> string \<Rightarrow> string \<Rightarrow> string \<Rightarrow> string \<Rightarrow> string \<Rightarrow> string \<Rightarrow> string"
where
  "getDownloadUrl host repo branch commit platform binary extension =
     host @ ''/'' @ repo @ ''/'' @ branch @ ''/'' @ commit @ ''/'' @ platform @ ''/'' @
     binary @ ''.'' @ extension"

text \<open>
  Modelled from the spec: a valid tuple. Branch, commit (a hash string) and platform
  are single path segments, so none of them holds a slash, and a binary name holds no
  dot, the dot being what separates it from the extension.
\<close>

definition valid_tuple :: "string \<times> string \<times> string \<times> string \<times> string \<Rightarrow> bool" where
  "valid_tuple t =
     (case t of (branch, commit, platform, binary, extension) \<Rightarrow>
        CHR ''/'' \<notin> set branch \<and> CHR ''/'' \<notin> set commit \<and> CHR ''/'' \<notin> set platform \<and>
        CHR ''.'' \<notin> set binary)"

section \<open>Sample inputs\<close>

definition sample_url :: url_builder where
  "sample_url branch commit platform binary extension =
     ''https://host/'' @ branch @ ''/'' @
     (case commit of None \<Rightarrow> ''undefined'' | Some c \<Rightarrow> c) @
     ''/'' @ platform @ ''/'' @ binary @ (case extension of None \<Rightarrow> ''.gz'' | Some x \<Rightarrow> x)"

definition w0 :: world where
  "w0 = \<lparr>requests = [], console = []\<rparr>"

definition found :: fetch_result where
  "found = Got \<lparr>status = 200,
     entries = [(''content-type'', ''application/gzip''), (''content-length'', ''1024'')]\<rparr>"

definition not_found :: fetch_result where
  "not_found = Got \<lparr>status = 404, entries = [(''content-length'', ''153'')]\<rparr>"

section \<open>Auxiliary facts\<close>

lemma urlExists_settle_eq:
  "urlExists_settle r w = (Inr (succeeds r), w\<lparr>console := console w @ noise r\<rparr>)"
  by (cases r) (auto simp: urlExists_settle_def urlExists_try_def succeeds_def noise_def Let_def
      split: option.splits)

lemma urlExists_eq:
  "urlExists net url w =
     (Inr (succeeds (net (length (requests w)) url)),
      w\<lparr>requests := requests w @ [url],
        console := console w @ noise (net (length (requests w)) url)\<rparr>)"
  by (simp add: urlExists_def fetch_def urlExists_settle_eq)

lemma scan_none:
  "\<forall>j<length commits. \<not> succeeds (net (length (requests w) + j) (gdu ''master'' (Some (commits ! j)) ''darwin'' ''query-engine'' None))
   \<Longrightarrow> fst (getFirstExistingCommit gdu net commits w) = Inr None \<and>
       requests (snd (getFirstExistingCommit gdu net commits w)) =
         requests w @ map (\<lambda>c. gdu ''master'' (Some c) ''darwin'' ''query-engine'' None) commits"
proof (induction commits arbitrary: w)
  case Nil
  then show ?case by simp
next
  case (Cons c cs)
  let ?u = "gdu ''master'' (Some c) ''darwin'' ''query-engine'' None"
  let ?w1 = "w\<lparr>requests := requests w @ [?u], console := console w @ noise (net (length (requests w)) ?u)\<rparr>"
  from Cons.prems have h0: "\<not> succeeds (net (length (requests w)) ?u)" by force
  have "\<forall>j<length cs. \<not> succeeds (net (length (requests ?w1) + j) (gdu ''master'' (Some (cs ! j)) ''darwin'' ''query-engine'' None))"
  proof (intro allI impI)
    fix j assume "j < length cs"
    then have "Suc j < length (c # cs)" by simp
    with Cons.prems have "\<not> succeeds (net (length (requests w) + Suc j) (gdu ''master'' (Some ((c # cs) ! Suc j)) ''darwin'' ''query-engine'' None))" by blast
    then show "\<not> succeeds (net (length (requests ?w1) + j) (gdu ''master'' (Some (cs ! j)) ''darwin'' ''query-engine'' None))" by simp
  qed
  from Cons.IH[OF this] h0 show ?case by (simp add: urlExists_eq)
qed

lemma scan_first:
  "i < length commits \<Longrightarrow>
   succeeds (net (length (requests w) + i) (gdu ''master'' (Some (commits ! i)) ''darwin'' ''query-engine'' None)) \<Longrightarrow>
   \<forall>j<i. \<not> succeeds (net (length (requests w) + j) (gdu ''master'' (Some (commits ! j)) ''darwin'' ''query-engine'' None))
   \<Longrightarrow> fst (getFirstExistingCommit gdu net commits w) = Inr (Some (commits ! i)) \<and>
       requests (snd (getFirstExistingCommit gdu net commits w)) =
         requests w @ map (\<lambda>c. gdu ''master'' (Some c) ''darwin'' ''query-engine'' None) (take (Suc i) commits)"
proof (induction commits arbitrary: w i)
  case Nil
  then show ?case by simp
next
  case (Cons c cs)
  let ?u = "gdu ''master'' (Some c) ''darwin'' ''query-engine'' None"
  let ?w1 = "w\<lparr>requests := requests w @ [?u], console := console w @ noise (net (length (requests w)) ?u)\<rparr>"
  show ?case
  proof (cases i)
    case 0
    with Cons.prems show ?thesis by (simp add: urlExists_eq)
  next
    case (Suc i')
    with Cons.prems have h0: "\<not> succeeds (net (length (requests w)) ?u)" by force
    have a: "i' < length cs" using Cons.prems Suc by simp
    have b: "succeeds (net (length (requests ?w1) + i') (gdu ''master'' (Some (cs ! i')) ''darwin'' ''query-engine'' None))"
      using Cons.prems(2) Suc by simp
    have c: "\<forall>j<i'. \<not> succeeds (net (length (requests ?w1) + j) (gdu ''master'' (Some (cs ! j)) ''darwin'' ''query-engine'' None))"
    proof (intro allI impI)
      fix j assume "j < i'"
      then have "Suc j < i" using Suc by simp
      with Cons.prems(3) have "\<not> succeeds (net (length (requests w) + Suc j) (gdu ''master'' (Some ((c # cs) ! Suc j)) ''darwin'' ''query-engine'' None))" by blast
      then show "\<not> succeeds (net (length (requests ?w1) + j) (gdu ''master'' (Some (cs ! j)) ''darwin'' ''query-engine'' None))" by simp
    qed
    from Cons.IH[OF a b c] h0 Suc show ?thesis by (simp add: urlExists_eq)
  qed
qed

lemma scan_never_throws: "fst (getFirstExistingCommit gdu net commits w) \<noteq> Inl e"
  by (induction commits arbitrary: w) (auto simp: urlExists_eq)

lemma set_settled: "set (settled n done sched) = {i \<in> set sched. i < n \<and> i \<notin> set done}"
  by (induction sched arbitrary: "done") auto

lemma issue_all_eq:
  "issue_all net urls w =
     (map (\<lambda>j. (urls ! j, net (length (requests w) + j) (urls ! j))) [0..<length urls],
      w\<lparr>requests := requests w @ urls\<rparr>)"
proof (induction urls arbitrary: w)
  case Nil
  then show ?case by simp
next
  case (Cons u us)
  have "map (\<lambda>j. ((u # us) ! j, net (length (requests w) + j) ((u # us) ! j))) [0..<length (u # us)]
      = (u, net (length (requests w)) u) #
        map (\<lambda>j. (us ! j, net (Suc (length (requests w)) + j) (us ! j))) [0..<length us]"
    by (simp add: map_upt_Suc del: upt_Suc)
  then show ?case using Cons.IH by (simp add: fetch_def)
qed

lemma settle_all_eq:
  "settle_all tasks done sched w =
     (map (\<lambda>i. (i, Inr (task_outcome (tasks ! i)))) (settled (length tasks) done sched),
      w\<lparr>console := console w @ concat (map (\<lambda>i. noise (snd (tasks ! i))) (settled (length tasks) done sched))\<rparr>)"
proof (induction sched arbitrary: "done" w)
  case Nil
  then show ?case by simp
next
  case (Cons i sched)
  show ?case
  proof (cases "i < length tasks \<and> i \<notin> set done")
    case True
    obtain url r where t: "tasks ! i = (url, r)" by (cases "tasks ! i")
    from True t show ?thesis
      by (simp add: Cons.IH urlExists_settle_eq task_outcome_def)
  next
    case False
    then show ?thesis using Cons.IH by auto
  qed
qed

lemma promise_all_fulfilled:
  "promise_all slots (map (\<lambda>i. (i, Inr (f i))) order) =
     (case those (fold (\<lambda>i s. s[i := Some (f i)]) order slots) of
        None \<Rightarrow> None | Some vs \<Rightarrow> Some (Inr vs))"
  by (induction order arbitrary: slots) auto

lemma fold_slots_length: "length (fold (\<lambda>i s. s[i := Some (f i)]) order slots) = length slots"
  by (induction order arbitrary: slots) auto

lemma fold_slots_nth:
  "i < length slots \<Longrightarrow>
   fold (\<lambda>i s. s[i := Some (f i)]) order slots ! i =
     (if i \<in> set order then Some (f i) else slots ! i)"
  by (induction order arbitrary: slots) (auto simp: nth_list_update)

lemma those_map_Some: "those (map Some xs) = Some xs"
  by (induction xs) auto

lemma those_None: "None \<in> set xs \<Longrightarrow> those xs = None"
  by (induction xs) (auto split: option.splits)

lemma slots_all:
  assumes "\<forall>i<n. i \<in> set order"
  shows "fold (\<lambda>i s. s[i := Some (f i)]) order (replicate n None) = map (\<lambda>i. Some (f i)) [0..<n]"
  by (rule nth_equalityI) (use assms in \<open>auto simp: fold_slots_length fold_slots_nth\<close>)

lemma slots_some_missing:
  assumes "i < n" "i \<notin> set order"
  shows "None \<in> set (fold (\<lambda>i s. s[i := Some (f i)]) order (replicate n None))"
proof -
  have "fold (\<lambda>i s. s[i := Some (f i)]) order (replicate n None) ! i = None"
    using assms by (simp add: fold_slots_nth)
  moreover have "i < length (fold (\<lambda>i s. s[i := Some (f i)]) order (replicate n None))"
    using assms by (simp add: fold_slots_length)
  ultimately show ?thesis by (metis nth_mem)
qed

lemma join_all:
  "promise_all (replicate (length tasks) None) (fst (settle_all tasks [] sched w)) =
     (if \<forall>i<length tasks. i \<in> set sched then Some (Inr (map task_outcome tasks)) else None)"
proof (cases "\<forall>i<length tasks. i \<in> set sched")
  case True
  then have "\<forall>i<length tasks. i \<in> set (settled (length tasks) [] sched)"
    by (simp add: set_settled)
  then have "fold (\<lambda>i s. s[i := Some (task_outcome (tasks ! i))]) (settled (length tasks) [] sched)
       (replicate (length tasks) None) = map (\<lambda>i. Some (task_outcome (tasks ! i))) [0..<length tasks]"
    by (rule slots_all)
  also have "\<dots> = map Some (map task_outcome tasks)"
    by (rule nth_equalityI) simp_all
  finally show ?thesis using True
    by (simp add: settle_all_eq promise_all_fulfilled those_map_Some del: map_map)
next
  case False
  then obtain i where i: "i < length tasks" "i \<notin> set sched" by blast
  then have "i \<notin> set (settled (length tasks) [] sched)" by (simp add: set_settled)
  from slots_some_missing[OF i(1) this]
  have "those (fold (\<lambda>i s. s[i := Some (task_outcome (tasks ! i))]) (settled (length tasks) [] sched)
       (replicate (length tasks) None)) = None"
    by (rule those_None)
  then show ?thesis using False by (simp add: settle_all_eq promise_all_fulfilled)
qed

lemma parseInt_undefined: "parseInt None = None"
  by (simp add: parseInt_def isWhiteSpace_def radixDigit_def digitValue_def)

lemma parseInt_zero: "parseInt (Some ''0'') = Some 0"
  by (simp add: parseInt_def isWhiteSpace_def radixDigit_def digitValue_def List.map_filter_def)

lemma succeeds_Got:
  "succeeds (Got res) =
     ((\<exists>n. parseInt (fromEntries (entries res) ''content-length'') = Some n \<and> 0 < n) \<and> status res < 300)"
  by (auto simp: succeeds_def urlExists_settle_def urlExists_try_def Let_def split: option.splits)

lemma succeeds_Threw: "\<not> succeeds (Threw e)"
  by (simp add: succeeds_def urlExists_settle_def urlExists_try_def)

lemma downloadUrls_product:
  "downloadUrls gdu platforms commit =
     map (\<lambda>(p, e, x). gdu ''master'' commit p e (Some x))
       (List.product (relevantPlatforms platforms) (List.product engines extensions))"
  by (simp add: downloadUrls_def List.product_concat_map map_concat comp_def)

lemma length_issue_all: "length (fst (issue_all net urls w)) = length urls"
  by (simp add: issue_all_eq)

lemma urls_of_outcomes: "map downloadUrl (verification_outcomes net urls w) = urls"
  by (rule nth_equalityI) (simp_all add: verification_outcomes_def issue_all_eq task_outcome_def)

lemma getLatestTag_eq:
  assumes "fst (getFirstExistingCommit gdu net commits w) = Inr commit"
  shows "getLatestTag gdu net platforms (Inr commits) sched w =
    (let w1 = snd (getFirstExistingCommit gdu net commits w);
         urls = downloadUrls gdu platforms commit;
         tasks = fst (issue_all net urls w1);
         missing = filter (\<lambda>e. \<not> exists e) (verification_outcomes net urls w1)
     in (if \<forall>i<length urls. i \<in> set sched then
           if missing = [] then Some (Inr commit)
           else Some (Inl (Error (''Could not get new tag, as some assets don't exist: '' @
                                  join '', '' (map downloadUrl missing))))
         else None,
         w1\<lparr>requests := requests w1 @ urls,
            console := console w1 @
              concat (map (\<lambda>i. noise (snd (tasks ! i))) (settled (length tasks) [] sched))\<rparr>))"
proof -
  obtain w1 where s: "getFirstExistingCommit gdu net commits w = (Inr commit, w1)"
    using assms by (cases "getFirstExistingCommit gdu net commits w") simp
  obtain tasks w2 where i: "issue_all net (downloadUrls gdu platforms commit) w1 = (tasks, w2)"
    by (cases "issue_all net (downloadUrls gdu platforms commit) w1")
  have w2: "w2 = w1\<lparr>requests := requests w1 @ downloadUrls gdu platforms commit\<rparr>"
    using i by (simp add: issue_all_eq)
  have len: "length tasks = length (downloadUrls gdu platforms commit)"
    using i length_issue_all[of net "downloadUrls gdu platforms commit" w1] by simp
  obtain evs w3 where t: "settle_all tasks [] sched w2 = (evs, w3)"
    by (cases "settle_all tasks [] sched w2")
  have w3: "w3 = w2\<lparr>console := console w2 @
              concat (map (\<lambda>i. noise (snd (tasks ! i))) (settled (length tasks) [] sched))\<rparr>"
    using t by (simp add: settle_all_eq)
  have j: "promise_all (replicate (length tasks) None) evs =
     (if \<forall>i<length tasks. i \<in> set sched then Some (Inr (map task_outcome tasks)) else None)"
    using join_all[of tasks sched w2] t by simp
  have v: "verification_outcomes net (downloadUrls gdu platforms commit) w1 = map task_outcome tasks"
    using i by (simp add: verification_outcomes_def)
  have "getLatestTag gdu net platforms (Inr commits) sched w =
     (if \<forall>i<length tasks. i \<in> set sched then
        if filter (\<lambda>e. \<not> exists e) (map task_outcome tasks) = [] then Some (Inr commit)
        else Some (Inl (Error (''Could not get new tag, as some assets don't exist: '' @
               join '', '' (map downloadUrl (filter (\<lambda>e. \<not> exists e) (map task_outcome tasks))))))
      else None, w3)"
    unfolding getLatestTag_def by (simp add: s i t j Let_def)
  then show ?thesis
    by (simp add: s i v len w3 w2 Let_def)
qed

lemma sublist_prepend: "sublist x ys \<Longrightarrow> sublist x (ps @ ys)"
  by (simp add: sublist_append)

lemma sublist_join: "x \<in> set xs \<Longrightarrow> sublist x (join sep xs)"
proof (induction sep xs rule: join.induct)
  case (1 sep)
  then show ?case by simp
next
  case (2 sep x')
  then show ?case by simp
next
  case (3 sep x' y ys)
  show ?case
  proof (cases "x = x'")
    case True
    then show ?thesis by (simp add: sublist_append_rightI)
  next
    case False
    with 3 have "sublist x (join sep (y # ys))" by simp
    then have "sublist x (sep @ join sep (y # ys))" by (rule sublist_prepend)
    then have "sublist x (x' @ sep @ join sep (y # ys))" by (rule sublist_prepend)
    then show ?thesis by simp
  qed
qed

lemma succeeds_found: "succeeds found"
  by (simp add: found_def succeeds_Got fromEntries_def parseInt_def isWhiteSpace_def
      radixDigit_def digitValue_def List.map_filter_def)

lemma succeeds_not_found: "\<not> succeeds not_found"
  by (simp add: not_found_def succeeds_Got)

lemma relevant_sample: "relevantPlatforms [''darwin'', ''freebsd''] = [''darwin'']"
  by (simp add: relevantPlatforms_def excludedPlatforms_def)

lemma length_downloadUrls:
  "length (downloadUrls gdu platforms commit) = length (relevantPlatforms platforms) * 20"
  by (simp add: downloadUrls_product engines_def extensions_def)

lemma all_settle_upt: "\<forall>i<n. i \<in> set [0..<n]" "\<forall>i<n. i \<in> set (rev [0..<n])"
  by simp_all

lemma filter_missing_iff: "(\<forall>e\<in>set xs. exists e) = (filter (\<lambda>e. \<not> exists e) xs = [])"
  by (simp add: filter_empty_conv)

lemma split_at_separator:
  "c \<notin> set a \<Longrightarrow> c \<notin> set a' \<Longrightarrow> (a @ c # r = a' @ c # r') = (a = a' \<and> r = r')"
proof (induction a arbitrary: a')
  case Nil
  then show ?case by (cases a') auto
next
  case (Cons x a)
  then show ?case by (cases a') auto
qed

lemma relevantPlatforms_set:
  "set (relevantPlatforms platforms) =
     set platforms - {''freebsd'', ''arm'', ''linux-nixos'', ''openbsd'', ''netbsd''}"
  by (auto simp: relevantPlatforms_def excludedPlatforms_def)

lemma distinct_engines: "distinct engines" and length_engines: "length engines = 4"
  by (simp_all add: engines_def)

lemma distinct_extensions: "distinct extensions" and length_extensions: "length extensions = 5"
  by (simp_all add: extensions_def)

lemma slot_inner_bound: "j < 4 \<Longrightarrow> k < 5 \<Longrightarrow> j * 5 + k < (20::nat)"
  by arith

lemma slot_div: "j < 4 \<Longrightarrow> k < 5 \<Longrightarrow> ((i * 4 + j) * 5 + k) div 20 = (i::nat)"
  by (simp add: algebra_simps div_nat_eqI)

lemma slot_mod: "j < 4 \<Longrightarrow> k < 5 \<Longrightarrow> ((i * 4 + j) * 5 + k) mod 20 = j * 5 + (k::nat)"
proof -
  assume "j < 4" "k < 5"
  then have "j * 5 + k < 20" by arith
  then have "(20 * i + (j * 5 + k)) mod 20 = j * 5 + k" by simp
  moreover have "(i * 4 + j) * 5 + k = 20 * i + (j * 5 + k)" by (simp add: algebra_simps)
  ultimately show ?thesis by (simp only:)
qed

lemma slot_bound: "i < L \<Longrightarrow> j < 4 \<Longrightarrow> k < 5 \<Longrightarrow> (i * 4 + j) * 5 + k < L * (20::nat)"
  by (simp add: algebra_simps)

lemma product_engines_extensions_nth:
  assumes "j < 4" "k < 5"
  shows "List.product engines extensions ! (j * 5 + k) = (engines ! j, extensions ! k)"
proof -
  have "j * 5 + k < length engines * length extensions"
    using slot_inner_bound [OF assms] by (simp add: length_engines length_extensions)
  then have "List.product engines extensions ! (j * 5 + k) =
      (engines ! ((j * 5 + k) div length extensions), extensions ! ((j * 5 + k) mod length extensions))"
    by (rule product_nth)
  then show ?thesis using assms(2) by (simp add: length_extensions)
qed

lemma downloadUrls_nth:
  assumes "i < length (relevantPlatforms platforms)" "j < 4" "k < 5"
  shows "downloadUrls gdu platforms commit ! ((i * 4 + j) * 5 + k) =
         gdu ''master'' commit (relevantPlatforms platforms ! i) (engines ! j) (Some (extensions ! k))"
proof -
  let ?n = "(i * 4 + j) * 5 + k"
  let ?pairs = "List.product engines extensions"
  have len: "length ?pairs = 20"
    by (simp add: length_engines length_extensions)
  have lt: "?n < length (relevantPlatforms platforms) * length ?pairs"
    using slot_bound [OF assms] by (simp only: len)
  then have "List.product (relevantPlatforms platforms) ?pairs ! ?n =
        (relevantPlatforms platforms ! (?n div length ?pairs), ?pairs ! (?n mod length ?pairs))"
    by (rule product_nth)
  then have "List.product (relevantPlatforms platforms) ?pairs ! ?n =
        (relevantPlatforms platforms ! i, ?pairs ! (j * 5 + k))"
    by (simp only: len slot_div [OF assms(2,3)] slot_mod [OF assms(2,3)])
  then have t: "List.product (relevantPlatforms platforms) ?pairs ! ?n =
        (relevantPlatforms platforms ! i, engines ! j, extensions ! k)"
    by (simp only: product_engines_extensions_nth [OF assms(2,3)])
  have "?n < length (List.product (relevantPlatforms platforms) ?pairs)"
    using lt by (simp only: length_product)
  then have "map (\<lambda>(p, e, x). gdu ''master'' commit p e (Some x))
        (List.product (relevantPlatforms platforms) ?pairs) ! ?n =
      (\<lambda>(p, e, x). gdu ''master'' commit p e (Some x))
        (List.product (relevantPlatforms platforms) ?pairs ! ?n)"
    by (rule nth_map)
  then show ?thesis by (simp only: downloadUrls_product t prod.case)
qed

lemma subseq_filter_map: "subseq (map f (filter P xs)) (map f xs)"
  by (induction xs) auto

text \<open>
  The tuples \<open>getLatestTag\<close> builds are valid as soon as the commit and the platform
  hold no slash: the branch is \<open>master\<close> and no engine name holds a dot.
\<close>

lemma engines_valid:
  assumes "e \<in> set engines" "CHR ''/'' \<notin> set c" "CHR ''/'' \<notin> set p"
  shows "valid_tuple (''master'', c, p, e, x)"
  using assms by (auto simp: valid_tuple_def engines_def)

section \<open>The claims\<close>

subsection \<open>The existence probe\<close>

text \<open>
  C4. When the request yields a response, \<open>urlExists\<close> answers \<open>true\<close> exactly when
  \<open>parseInt\<close> of the \<open>content-length\<close> header is a number greater than zero and the
  status is below 300. In particular the answer is \<open>false\<close> when the header is
  missing, when it is \<open>0\<close>, and when the status is 300 or more, whatever the other
  condition says.
\<close>

theorem urlExists_length_and_status:
  assumes "net (length (requests w)) url = Got res"
  shows "fst (urlExists net url w) =
           Inr ((\<exists>n. parseInt (fromEntries (entries res) ''content-length'') = Some n \<and> 0 < n)
                \<and> status res < 300)
         \<and> (fromEntries (entries res) ''content-length'' = None \<longrightarrow> fst (urlExists net url w) = Inr False)
         \<and> (fromEntries (entries res) ''content-length'' = Some ''0'' \<longrightarrow> fst (urlExists net url w) = Inr False)
         \<and> (300 \<le> status res \<longrightarrow> fst (urlExists net url w) = Inr False)"
  using assms by (simp add: urlExists_eq succeeds_Got parseInt_undefined parseInt_zero)

text \<open>
  The four responses of the claim: length and success status; length and status 404;
  status 200 with no header; status 200 with length zero.
\<close>

theorem urlExists_length_and_status_witness:
  "fst (urlExists (\<lambda>k u. found) ''https://host/a.gz'' w0) = Inr True
   \<and> fst (urlExists (\<lambda>k u. not_found) ''https://host/a.gz'' w0) = Inr False
   \<and> fst (urlExists (\<lambda>k u. Got \<lparr>status = 200, entries = []\<rparr>) ''https://host/a.gz'' w0) = Inr False
   \<and> fst (urlExists (\<lambda>k u. Got \<lparr>status = 200, entries = [(''content-length'', ''0'')]\<rparr>) ''https://host/a.gz'' w0) = Inr False"
proof -
  have p: "parseInt (Some ''1024'') = Some 1024" "parseInt (Some ''153'') = Some 153"
    by (simp_all add: parseInt_def isWhiteSpace_def radixDigit_def digitValue_def List.map_filter_def)
  have 1: "fst (urlExists (\<lambda>k u. found) ''https://host/a.gz'' w0) = Inr True"
    using urlExists_length_and_status [of "\<lambda>k u. found" w0 "''https://host/a.gz''"
        "\<lparr>status = 200, entries = [(''content-type'', ''application/gzip''), (''content-length'', ''1024'')]\<rparr>"]
    by (simp add: found_def fromEntries_def p)
  have 2: "fst (urlExists (\<lambda>k u. not_found) ''https://host/a.gz'' w0) = Inr False"
    using urlExists_length_and_status [of "\<lambda>k u. not_found" w0 "''https://host/a.gz''"
        "\<lparr>status = 404, entries = [(''content-length'', ''153'')]\<rparr>"]
    by (simp add: not_found_def fromEntries_def p)
  have 3: "fst (urlExists (\<lambda>k u. Got \<lparr>status = 200, entries = []\<rparr>) ''https://host/a.gz'' w0) = Inr False"
    using urlExists_length_and_status [of "\<lambda>k u. Got \<lparr>status = 200, entries = []\<rparr>" w0 "''https://host/a.gz''"
        "\<lparr>status = 200, entries = []\<rparr>"]
    by (simp add: fromEntries_def parseInt_undefined)
  have 4: "fst (urlExists (\<lambda>k u. Got \<lparr>status = 200, entries = [(''content-length'', ''0'')]\<rparr>) ''https://host/a.gz'' w0) = Inr False"
    using urlExists_length_and_status [of "\<lambda>k u. Got \<lparr>status = 200, entries = [(''content-length'', ''0'')]\<rparr>" w0 "''https://host/a.gz''"
        "\<lparr>status = 200, entries = [(''content-length'', ''0'')]\<rparr>"]
    by (simp add: fromEntries_def parseInt_zero)
  from 1 2 3 4 show ?thesis by blast
qed

text \<open>
  C5. \<open>urlExists\<close> never hands an exception to its caller: its result is always a
  boolean, and it is \<open>false\<close> whenever the request throws.
\<close>

theorem urlExists_never_raises:
  "(\<exists>b w'. urlExists net url w = (Inr b, w'))
   \<and> (\<forall>e. net (length (requests w)) url = Threw e \<longrightarrow> fst (urlExists net url w) = Inr False)"
  by (simp add: urlExists_eq succeeds_Threw)

theorem urlExists_never_raises_witness:
  "fst (urlExists (\<lambda>k u. Threw (Error ''getaddrinfo ENOTFOUND host'')) ''https://host/a.gz'' w0) = Inr False"
  using urlExists_never_raises [of "\<lambda>k u. Threw (Error ''getaddrinfo ENOTFOUND host'')" "''https://host/a.gz''" w0]
  by simp

subsection \<open>The scan of the candidate commits\<close>

text \<open>
  C2. When candidate \<open>i\<close> is the first whose reference artifact the probe finds,
  \<open>getFirstExistingCommit\<close> returns that candidate, and the requests it has sent are
  those for the candidates \<open>0\<close> to \<open>i\<close>, one each, in the order of the list: every
  earlier candidate was probed, and none after the returned one.
\<close>

theorem getFirstExistingCommit_first_success:
  assumes "i < length commits"
    and "succeeds (net (length (requests w) + i)
           (gdu ''master'' (Some (commits ! i)) ''darwin'' ''query-engine'' None))"
    and "\<forall>j<i. \<not> succeeds (net (length (requests w) + j)
           (gdu ''master'' (Some (commits ! j)) ''darwin'' ''query-engine'' None))"
  shows "fst (getFirstExistingCommit gdu net commits w) = Inr (Some (commits ! i))
       \<and> requests (snd (getFirstExistingCommit gdu net commits w)) =
           requests w @
           map (\<lambda>c. gdu ''master'' (Some c) ''darwin'' ''query-engine'' None) (take (Suc i) commits)"
  using assms by (rule scan_first)

text \<open>The candidates \<open>c1, c2, c3\<close> of which only \<open>c2\<close> has its reference artifact.\<close>

theorem getFirstExistingCommit_first_success_witness:
  "fst (getFirstExistingCommit sample_url (\<lambda>k u. if k = 1 then found else not_found)
          [''c1'', ''c2'', ''c3''] w0) = Inr (Some ''c2'')
   \<and> requests (snd (getFirstExistingCommit sample_url (\<lambda>k u. if k = 1 then found else not_found)
          [''c1'', ''c2'', ''c3''] w0)) =
       [''https://host/master/c1/darwin/query-engine.gz'',
        ''https://host/master/c2/darwin/query-engine.gz'']"
proof -
  let ?net = "\<lambda>(k::nat) (u::string). if k = 1 then found else not_found"
  have 1: "(1::nat) < length [''c1'', ''c2'', ''c3'']" by simp
  have 2: "succeeds (?net (length (requests w0) + 1)
       (sample_url ''master'' (Some ([''c1'', ''c2'', ''c3''] ! 1)) ''darwin'' ''query-engine'' None))"
    by (simp add: w0_def succeeds_found)
  have 3: "\<forall>j<1. \<not> succeeds (?net (length (requests w0) + j)
       (sample_url ''master'' (Some ([''c1'', ''c2'', ''c3''] ! j)) ''darwin'' ''query-engine'' None))"
    by (simp add: w0_def succeeds_not_found)
  from getFirstExistingCommit_first_success
    [where gdu = sample_url and net = ?net and w = w0 and commits = "[''c1'', ''c2'', ''c3'']"
       and i = 1, OF 1 2 3]
  show ?thesis by (simp add: w0_def sample_url_def)
qed

text \<open>
  C3 asks for a fatal error \<open>NoValidCommitFound\<close> when no candidate has its reference
  artifact. The function, declared to return \<open>Promise<string>\<close>, ends without a
  \<open>return\<close> instead and resolves to \<open>undefined\<close>: for two candidates that are both
  absent, and for the empty list. \<open>getLatestTag\<close> then hands out \<open>undefined\<close> as the
  latest tag when the remote host answers every probe of the verification phase.
\<close>

theorem getFirstExistingCommit_exhausted_example:
  "fst (getFirstExistingCommit sample_url (\<lambda>k u. not_found) [''c1'', ''c2''] w0) = Inr None
   \<and> fst (getFirstExistingCommit sample_url (\<lambda>k u. not_found) [] w0) = Inr None
   \<and> fst (getLatestTag sample_url (\<lambda>k u. if k < 2 then not_found else found) [''darwin'']
            (Inr [''c1'', ''c2'']) [0..<20] w0) = Some (Inr None)"
proof -
  let ?net = "\<lambda>(k::nat) (u::string). if k < 2 then not_found else found"
  let ?w1 = "snd (getFirstExistingCommit sample_url ?net [''c1'', ''c2''] w0)"
  have 1: "fst (getFirstExistingCommit sample_url (\<lambda>k u. not_found) [''c1'', ''c2''] w0) = Inr None"
    by (simp add: urlExists_eq succeeds_not_found)
  have 2: "fst (getFirstExistingCommit sample_url (\<lambda>k u. not_found) [] w0) = Inr None"
    by simp
  have s: "fst (getFirstExistingCommit sample_url ?net [''c1'', ''c2''] w0) = Inr None"
    by (simp add: urlExists_eq succeeds_not_found w0_def)
  have r: "length (requests ?w1) = 2"
    by (simp add: urlExists_eq succeeds_not_found w0_def)
  have p: "relevantPlatforms [''darwin''] = [''darwin'']"
    by (simp add: relevantPlatforms_def excludedPlatforms_def)
  have v: "filter (\<lambda>e. \<not> exists e)
      (verification_outcomes ?net (downloadUrls sample_url [''darwin''] None) ?w1) = []"
    by (simp add: verification_outcomes_def downloadUrls_def p engines_def
        extensions_def fetch_def task_outcome_def r succeeds_found
        del: getFirstExistingCommit.simps)
  have 3: "fst (getLatestTag sample_url ?net [''darwin''] (Inr [''c1'', ''c2'']) [0..<20] w0) =
      Some (Inr None)"
    by (simp add: getLatestTag_eq [OF s] Let_def v length_downloadUrls p
        del: getFirstExistingCommit.simps)
  from 1 2 3 show ?thesis by blast
qed



subsection \<open>Aggregation\<close>

text \<open>
  C1. Let \<open>exist\<close> be the probe outcomes of the verification phase, in a run whose
  commit list was fetched, whose scan yields \<open>commit\<close>, and in which every probe
  settles. \<open>getLatestTag\<close> resolves to \<open>commit\<close> exactly when every outcome has
  \<open>exists = true\<close>. Otherwise it rejects with an \<open>Error\<close> whose message is the fixed
  prefix followed by the URLs of all outcomes with \<open>exists = false\<close>, joined by a comma
  and a space; so each such URL stands in the message.
\<close>

theorem getLatestTag_all_or_missing:
  assumes "fst (getFirstExistingCommit gdu net commits w) = Inr commit"
    and "\<forall>i<length (downloadUrls gdu platforms commit). i \<in> set sched"
  shows "let exist = verification_outcomes net (downloadUrls gdu platforms commit)
                       (snd (getFirstExistingCommit gdu net commits w));
             result = fst (getLatestTag gdu net platforms (Inr commits) sched w)
         in (result = Some (Inr commit) \<longleftrightarrow> (\<forall>e\<in>set exist. exists e))
          \<and> (\<not> (\<forall>e\<in>set exist. exists e) \<longrightarrow>
               result = Some (Inl (Error (''Could not get new tag, as some assets don't exist: '' @
                 join '', '' (map downloadUrl (filter (\<lambda>e. \<not> exists e) exist))))))
          \<and> (\<forall>e\<in>set exist. \<not> exists e \<longrightarrow>
               (\<exists>msg. result = Some (Inl (Error msg)) \<and> sublist (downloadUrl e) msg))"
proof -
  let ?exist = "verification_outcomes net (downloadUrls gdu platforms commit)
                       (snd (getFirstExistingCommit gdu net commits w))"
  let ?missing = "filter (\<lambda>e. \<not> exists e) ?exist"
  let ?msg = "''Could not get new tag, as some assets don't exist: '' @ join '', '' (map downloadUrl ?missing)"
  have r: "fst (getLatestTag gdu net platforms (Inr commits) sched w) =
      (if ?missing = [] then Some (Inr commit) else Some (Inl (Error ?msg)))"
    using assms(2) by (simp add: getLatestTag_eq[OF assms(1)] Let_def)
  have e: "(?missing = []) = (\<forall>e\<in>set ?exist. exists e)"
    by (simp add: filter_empty_conv)
  have s: "sublist (downloadUrl e) ?msg" if "e \<in> set ?exist" "\<not> exists e" for e
  proof -
    from that have "downloadUrl e \<in> set (map downloadUrl ?missing)" by simp
    then have "sublist (downloadUrl e) (join '', '' (map downloadUrl ?missing))" by (rule sublist_join)
    then show ?thesis by (rule sublist_prepend)
  qed
  have m: "?missing \<noteq> []" if "e \<in> set ?exist" "\<not> exists e" for e
    using that by (auto simp: filter_empty_conv)
  show ?thesis
    unfolding Let_def r e[symmetric]
    using s m by (auto simp del: sublist_code)
qed

theorem getLatestTag_all_or_missing_witness:
  "fst (getLatestTag sample_url (\<lambda>k u. if k = 0 \<or> k = 3 then not_found else found)
         [''darwin'', ''freebsd''] (Inr [''c1'', ''c2'']) (rev [0..<20]) w0) =
     Some (Inl (Error (''Could not get new tag, as some assets don't exist: '' @
                       ''https://host/master/c2/darwin/query-engine.gz.sha256'')))
   \<and> fst (getLatestTag sample_url (\<lambda>k u. if k = 0 then not_found else found)
         [''darwin'', ''freebsd''] (Inr [''c1'', ''c2'']) (rev [0..<20]) w0) = Some (Inr (Some ''c2''))"
proof -
  let ?net = "\<lambda>(k::nat) (u::string). if k = 0 \<or> k = 3 then not_found else found"
  let ?net' = "\<lambda>(k::nat) (u::string). if k = 0 then not_found else found"
  let ?w1 = "snd (getFirstExistingCommit sample_url ?net [''c1'', ''c2''] w0)"
  let ?w1' = "snd (getFirstExistingCommit sample_url ?net' [''c1'', ''c2''] w0)"
  let ?urls = "downloadUrls sample_url [''darwin'', ''freebsd''] (Some ''c2'')"
  have s: "fst (getFirstExistingCommit sample_url ?net [''c1'', ''c2''] w0) = Inr (Some ''c2'')"
    by (simp add: urlExists_eq succeeds_found succeeds_not_found w0_def)
  have s': "fst (getFirstExistingCommit sample_url ?net' [''c1'', ''c2''] w0) = Inr (Some ''c2'')"
    by (simp add: urlExists_eq succeeds_found succeeds_not_found w0_def)
  have a: "\<forall>i<length ?urls. i \<in> set (rev [0..<20])"
    by (simp add: length_downloadUrls relevant_sample)
  have r: "length (requests ?w1) = 2"
    by (simp add: urlExists_eq succeeds_found succeeds_not_found w0_def)
  have r': "length (requests ?w1') = 2"
    by (simp add: urlExists_eq succeeds_found succeeds_not_found w0_def)
  have v: "filter (\<lambda>e. \<not> exists e) (verification_outcomes ?net ?urls ?w1) =
      [\<lparr>downloadUrl = sample_url ''master'' (Some ''c2'') ''darwin'' ''query-engine'' (Some ''.gz.sha256''),
        exists = False\<rparr>]"
    by (simp add: verification_outcomes_def downloadUrls_def relevant_sample engines_def
        extensions_def fetch_def task_outcome_def r succeeds_found succeeds_not_found
        del: getFirstExistingCommit.simps)
  have v': "filter (\<lambda>e. \<not> exists e) (verification_outcomes ?net' ?urls ?w1') = []"
    by (simp add: verification_outcomes_def downloadUrls_def relevant_sample engines_def
        extensions_def fetch_def task_outcome_def r' succeeds_found succeeds_not_found
        del: getFirstExistingCommit.simps)
  have 1: "fst (getLatestTag sample_url ?net
         [''darwin'', ''freebsd''] (Inr [''c1'', ''c2'']) (rev [0..<20]) w0) =
     Some (Inl (Error (''Could not get new tag, as some assets don't exist: '' @
                       ''https://host/master/c2/darwin/query-engine.gz.sha256'')))"
    using getLatestTag_all_or_missing [OF s a, unfolded Let_def filter_missing_iff v]
    by (simp add: sample_url_def)
  have 2: "fst (getLatestTag sample_url ?net'
         [''darwin'', ''freebsd''] (Inr [''c1'', ''c2'']) (rev [0..<20]) w0) = Some (Inr (Some ''c2''))"
    using getLatestTag_all_or_missing [OF s' a, unfolded Let_def filter_missing_iff v']
    by simp
  from 1 2 show ?thesis by blast
qed

text \<open>
  C10. The result of \<open>getLatestTag\<close> is the same for any two orders in which the
  probes settle. The URLs in the error message are those of the outcomes with
  \<open>exists = false\<close> in the order of dispatch, a subsequence of the enumeration of the
  three nested loops, in which the URL at position \<open>(i * 4 + j) * 5 + k\<close> is that of
  the \<open>i\<close>-th relevant platform, the \<open>j\<close>-th engine and the \<open>k\<close>-th extension:
  platform outermost, extension innermost.
\<close>

theorem missing_urls_in_dispatch_order:
  assumes "fst (getFirstExistingCommit gdu net commits w) = Inr commit"
    and "\<forall>i<length (downloadUrls gdu platforms commit). i \<in> set sched"
    and "\<forall>i<length (downloadUrls gdu platforms commit). i \<in> set sched'"
  shows "let w1 = snd (getFirstExistingCommit gdu net commits w);
             enumeration = downloadUrls gdu platforms commit;
             exist = verification_outcomes net enumeration w1;
             missing_urls = map downloadUrl (filter (\<lambda>e. \<not> exists e) exist)
         in fst (getLatestTag gdu net platforms (Inr commits) sched w) =
            fst (getLatestTag gdu net platforms (Inr commits) sched' w)
          \<and> (missing_urls \<noteq> [] \<longrightarrow>
               fst (getLatestTag gdu net platforms (Inr commits) sched w) =
                 Some (Inl (Error (''Could not get new tag, as some assets don't exist: '' @
                                   join '', '' missing_urls))))
          \<and> subseq missing_urls enumeration
          \<and> (\<forall>i j k. i < length (relevantPlatforms platforms) \<longrightarrow> j < 4 \<longrightarrow> k < 5 \<longrightarrow>
               enumeration ! ((i * 4 + j) * 5 + k) =
                 gdu ''master'' commit (relevantPlatforms platforms ! i) (engines ! j)
                   (Some (extensions ! k)))"
proof -
  let ?w1 = "snd (getFirstExistingCommit gdu net commits w)"
  let ?enum = "downloadUrls gdu platforms commit"
  let ?exist = "verification_outcomes net ?enum ?w1"
  have a: "fst (getLatestTag gdu net platforms (Inr commits) sched w) =
           fst (getLatestTag gdu net platforms (Inr commits) sched' w)"
    using assms(2,3) by (simp add: getLatestTag_eq [OF assms(1)] Let_def)
  have b: "fst (getLatestTag gdu net platforms (Inr commits) sched w) =
             Some (Inl (Error (''Could not get new tag, as some assets don't exist: '' @
               join '', '' (map downloadUrl (filter (\<lambda>e. \<not> exists e) ?exist)))))"
    if "map downloadUrl (filter (\<lambda>e. \<not> exists e) ?exist) \<noteq> []"
    using that assms(2) by (simp add: getLatestTag_eq [OF assms(1)] Let_def)
  have "subseq (map downloadUrl (filter (\<lambda>e. \<not> exists e) ?exist)) (map downloadUrl ?exist)"
    by (rule subseq_filter_map)
  then have c: "subseq (map downloadUrl (filter (\<lambda>e. \<not> exists e) ?exist)) ?enum"
    by (simp only: urls_of_outcomes)
  have d: "?enum ! ((i * 4 + j) * 5 + k) =
      gdu ''master'' commit (relevantPlatforms platforms ! i) (engines ! j) (Some (extensions ! k))"
    if "i < length (relevantPlatforms platforms)" "j < 4" "k < 5" for i j k
    using that by (rule downloadUrls_nth)
  show ?thesis
    unfolding Let_def using a b c d by blast
qed

text \<open>
  Two assets are absent; the probes settle once in the order of dispatch and once in
  the reverse order.
\<close>

theorem missing_urls_in_dispatch_order_witness:
  "fst (getLatestTag sample_url (\<lambda>k u. if k = 2 \<or> k = 9 then not_found else found)
         [''darwin''] (Inr [''c2'']) (rev [0..<20]) w0) =
   fst (getLatestTag sample_url (\<lambda>k u. if k = 2 \<or> k = 9 then not_found else found)
         [''darwin''] (Inr [''c2'']) [0..<20] w0)
   \<and> fst (getLatestTag sample_url (\<lambda>k u. if k = 2 \<or> k = 9 then not_found else found)
         [''darwin''] (Inr [''c2'']) (rev [0..<20]) w0) =
     Some (Inl (Error (''Could not get new tag, as some assets don't exist: '' @
       ''https://host/master/c2/darwin/query-engine.gz.sha256, '' @
       ''https://host/master/c2/darwin/introspection-engine.sig'')))"
proof -
  let ?net = "\<lambda>(k::nat) (u::string). if k = 2 \<or> k = 9 then not_found else found"
  let ?w1 = "snd (getFirstExistingCommit sample_url ?net [''c2''] w0)"
  let ?urls = "downloadUrls sample_url [''darwin''] (Some ''c2'')"
  have s: "fst (getFirstExistingCommit sample_url ?net [''c2''] w0) = Inr (Some ''c2'')"
    by (simp add: urlExists_eq succeeds_found w0_def)
  have p: "relevantPlatforms [''darwin''] = [''darwin'']"
    by (simp add: relevantPlatforms_def excludedPlatforms_def)
  have a: "\<forall>i<length ?urls. i \<in> set (rev [0..<20])"
    by (simp add: length_downloadUrls p)
  have a': "\<forall>i<length ?urls. i \<in> set [0..<20]"
    by (simp add: length_downloadUrls p)
  have r: "length (requests ?w1) = 1"
    by (simp add: urlExists_eq succeeds_found w0_def)
  have v: "map downloadUrl (filter (\<lambda>e. \<not> exists e) (verification_outcomes ?net ?urls ?w1)) =
      [sample_url ''master'' (Some ''c2'') ''darwin'' ''query-engine'' (Some ''.gz.sha256''),
       sample_url ''master'' (Some ''c2'') ''darwin'' ''introspection-engine'' (Some ''.sig'')]"
    by (simp add: verification_outcomes_def downloadUrls_def p engines_def
        extensions_def fetch_def task_outcome_def r succeeds_found succeeds_not_found
        del: getFirstExistingCommit.simps)
  note th = missing_urls_in_dispatch_order
    [where gdu = sample_url and net = ?net and commits = "[''c2'']" and w = w0
       and platforms = "[''darwin'']" and sched = "rev [0..<20]" and sched' = "[0..<20]",
     OF s a a', unfolded Let_def v]
  from th have e1: "fst (getLatestTag sample_url ?net [''darwin''] (Inr [''c2'']) (rev [0..<20]) w0) =
      fst (getLatestTag sample_url ?net [''darwin''] (Inr [''c2'']) [0..<20] w0)"
    by (rule conjunct1)
  from th have "fst (getLatestTag sample_url ?net [''darwin''] (Inr [''c2'']) (rev [0..<20]) w0) =
     Some (Inl (Error (''Could not get new tag, as some assets don't exist: '' @
       join '', ''
        [sample_url ''master'' (Some ''c2'') ''darwin'' ''query-engine'' (Some ''.gz.sha256''),
         sample_url ''master'' (Some ''c2'') ''darwin'' ''introspection-engine'' (Some ''.sig'')])))"
    by blast
  then have e2: "fst (getLatestTag sample_url ?net [''darwin''] (Inr [''c2'']) (rev [0..<20]) w0) =
     Some (Inl (Error (''Could not get new tag, as some assets don't exist: '' @
       ''https://host/master/c2/darwin/query-engine.gz.sha256, '' @
       ''https://host/master/c2/darwin/introspection-engine.sig'')))"
    by (simp add: sample_url_def)
  from e1 e2 show ?thesis by (rule conjI)
qed

subsection \<open>The verification phase\<close>



subsection \<open>The URL builder\<close>

text \<open>
  C8. On valid tuples the URL builder is injective: two valid tuples give the same URL
  exactly when they are the same tuple. (It is a function of the tuple, so the same
  tuple gives the same URL on every call.)
\<close>

theorem getDownloadUrl_injective:
  assumes "valid_tuple (branch, commit, platform, binary, extension)"
    and "valid_tuple (branch', commit', platform', binary', extension')"
  shows "(getDownloadUrl host repo branch commit platform binary extension =
          getDownloadUrl host repo branch' commit' platform' binary' extension')
         = ((branch, commit, platform, binary, extension) =
            (branch', commit', platform', binary', extension'))"
  using assms
  by (auto simp: getDownloadUrl_def valid_tuple_def split_at_separator)

theorem getDownloadUrl_injective_witness:
  "valid_tuple (''master'', ''0a1b2c'', ''darwin'', ''query-engine'', ''gz'')
   \<and> valid_tuple (''master'', ''0a1b2c'', ''darwin'', ''query-engine'', ''gz.sha256'')
   \<and> getDownloadUrl ''https://host'' ''repo'' ''master'' ''0a1b2c'' ''darwin'' ''query-engine'' ''gz'' \<noteq>
     getDownloadUrl ''https://host'' ''repo'' ''master'' ''0a1b2c'' ''darwin'' ''query-engine'' ''gz.sha256''"
proof -
  have 1: "valid_tuple (''master'', ''0a1b2c'', ''darwin'', ''query-engine'', ''gz'')"
    by (simp add: valid_tuple_def)
  have 2: "valid_tuple (''master'', ''0a1b2c'', ''darwin'', ''query-engine'', ''gz.sha256'')"
    by (simp add: valid_tuple_def)
  from getDownloadUrl_injective [OF 1 2, of "''https://host''" "''repo''"] 1 2
  show ?thesis by simp
qed

end
